theory Spec2Isabelle
  imports Main "HOL-Library.Char_ord" "HOL-Library.List_Lexorder" "HOL-Library.Sublist"
begin

section \<open>Python strings\<close>

text \<open>
  A Python \<open>str\<close> is modelled as a \<open>string\<close>; a \<open>char\<close> stands for a code point
  below 256. \<open>str.strip()\<close> removes the characters for which \<open>str.isspace\<close> holds,
  which in that range are the code points 9-13, 28-32, 133 and 160. Strings compare as
  Python compares them: lexicographically by code point, a proper prefix first.
\<close>

definition py_isspace :: "char \<Rightarrow> bool" where
  "py_isspace c = (of_char c \<in> {9::nat, 10, 11, 12, 13, 28, 29, 30, 31, 32, 133, 160})"

definition py_strip :: "string \<Rightarrow> string" where
  "py_strip s = rev (dropWhile py_isspace (rev (dropWhile py_isspace s)))"

text \<open>\<open>s.startswith(p)\<close> is \<open>prefix p s\<close>, \<open>s.endswith(p)\<close> is \<open>suffix p s\<close>;
  \<open>tok in s\<close> on strings is \<open>py_contains tok s\<close>.\<close>

fun py_contains :: "string \<Rightarrow> string \<Rightarrow> bool" where
  "py_contains tok [] = (tok = [])"
| "py_contains tok (c # cs) = (prefix tok (c # cs) \<or> py_contains tok cs)"

text \<open>\<open>s.replace(old, new, 1)\<close>: the leftmost occurrence of \<open>old\<close> is replaced.\<close>

fun py_replace1 :: "string \<Rightarrow> string \<Rightarrow> string \<Rightarrow> string" where
  "py_replace1 old new [] = (if old = [] then new else [])"
| "py_replace1 old new (c # cs) =
     (if prefix old (c # cs) then new @ drop (length old) (c # cs)
      else c # py_replace1 old new cs)"

text \<open>\<open>sep.join(xs)\<close>.\<close>

fun py_join :: "string \<Rightarrow> string list \<Rightarrow> string" where
  "py_join sep [] = []"
| "py_join sep [x] = x"
| "py_join sep (x # y # ys) = x @ sep @ py_join sep (y # ys)"

text \<open>\<open>str(n)\<close> of an integer, in decimal.\<close>

fun str_nat :: "nat \<Rightarrow> string" where
  "str_nat n =
     (if n < 10 then [char_of (48 + n)]
      else str_nat (n div 10) @ [char_of (48 + n mod 10)])"

declare str_nat.simps [simp del]

definition str_int :: "int \<Rightarrow> string" where
  "str_int i = (if i < 0 then CHR ''-'' # str_nat (nat (- i)) else str_nat (nat i))"

section \<open>Key inference (src/utils/app_visuals.py)\<close>

text \<open>
  What \<open>payload.get(field)\<close> can hold, as far as \<open>_to_candidates\<close> tells values apart:
  a \<open>str\<close>; a \<open>list\<close>, each item given by its \<open>str(item)\<close>; anything else (a number,
  a boolean, \<open>null\<close>, an object). A missing field is \<open>None\<close>.
\<close>

datatype json_field = JString string | JList "string list" | JOther

text \<open>
  What \<open>json.loads\<close> returns: a JSON object (a \<open>dict\<close>), or a value of another type,
  which has no \<open>get\<close>.
\<close>

datatype payload = PObject "string \<rightharpoonup> json_field" | PNonObject

text \<open>
  The metadata sidecar as the function meets it: no path given or the path is not a
  file; a file that \<open>json.loads\<close> rejects with \<open>JSONDecodeError\<close>; a file that parses.
\<close>

datatype cluster_info = NoFile | Malformed | Loaded payload

datatype py_error = AttributeError

fun to_candidates :: "json_field option \<Rightarrow> string list" where
  "to_candidates (Some (JList items)) =
     map py_strip (filter (\<lambda>item. py_strip item \<noteq> []) items)"
| "to_candidates (Some (JString v)) = (if py_strip v \<noteq> [] then [py_strip v] else [])"
| "to_candidates _ = []"

text \<open>The candidate list the \<open>try\<close> block builds with \<open>extend\<close>.\<close>

definition collect_candidates :: "(string \<rightharpoonup> json_field) \<Rightarrow> string option \<Rightarrow> string list" where
  "collect_candidates p preferred_key =
     (let candidates = [];
          candidates =
            (case preferred_key of
               None \<Rightarrow> candidates
             | Some pk \<Rightarrow>
                 if pk = [] then candidates
                 else (let candidates = candidates @ to_candidates (p pk)
                       in if suffix ''s'' pk
                          then candidates @ to_candidates (p (butlast pk))
                          else candidates))
      in if candidates = [] then candidates @ to_candidates (p ''cluster_key'')
         else candidates)"

text \<open>The \<open>for candidate in candidates\<close> loop with its \<open>break\<close>.\<close>

fun first_in_columns :: "string list \<Rightarrow> string list \<Rightarrow> string option" where
  "first_in_columns columns [] = None"
| "first_in_columns columns (candidate # rest) =
     (if candidate \<in> set columns then Some candidate else first_in_columns columns rest)"

text \<open>
  The value of \<open>cluster_key\<close> after the \<open>if cluster_info_path ...\<close> block. Only
  \<open>JSONDecodeError\<close> is caught, so \<open>payload.get\<close> on a payload that is not a
  \<open>dict\<close> raises \<open>AttributeError\<close> out of the function.
\<close>

fun metadata_cluster_key ::
  "string list \<Rightarrow> cluster_info \<Rightarrow> string option \<Rightarrow> py_error + string option" where
  "metadata_cluster_key columns NoFile preferred_key = Inr None"
| "metadata_cluster_key columns Malformed preferred_key = Inr None"
| "metadata_cluster_key columns (Loaded PNonObject) preferred_key = Inl AttributeError"
| "metadata_cluster_key columns (Loaded (PObject p)) preferred_key =
     Inr (first_in_columns columns (collect_candidates p preferred_key))"

text \<open>The part of \<open>_infer_default_color\<close> after the metadata: lines 54 to 64.\<close>

definition column_fallbacks :: "string list \<Rightarrow> string \<Rightarrow> string" where
  "column_fallbacks columns fallback =
     (let leiden_cols = filter (prefix ''leiden_'') columns
      in if leiden_cols \<noteq> [] then last (sort leiden_cols)
         else if fallback \<in> set columns then fallback
         else if length columns > 0 then columns ! 0
         else fallback)"

text \<open>
  \<open>_infer_default_color(adata, cluster_info_path, fallback, preferred_key)\<close>, with
  \<open>adata.obs.columns\<close> as the list of column names.
\<close>

definition infer_default_color ::
  "string list \<Rightarrow> cluster_info \<Rightarrow> string \<Rightarrow> string option \<Rightarrow> py_error + string" where
  "infer_default_color columns info fallback preferred_key =
     (case metadata_cluster_key columns info preferred_key of
        Inl e \<Rightarrow> Inl e
      | Inr cluster_key \<Rightarrow>
          (case cluster_key of
             Some k \<Rightarrow>
               if k \<noteq> [] \<and> k \<in> set columns then Inr k
               else Inr (column_fallbacks columns fallback)
           | None \<Rightarrow> Inr (column_fallbacks columns fallback)))"

section \<open>The main window (src/app/main.py)\<close>

record recent_project =
  data_dir :: string
  out_dir :: string
  karospace_html :: "string option"
  last_used :: string

text \<open>
  The fields of \<open>MainWindow\<close> that the modelled methods read and write.
  \<open>busy_timer_active\<close> is whether \<open>_busy_timer\<close> runs; \<open>activity_stage\<close> is the full
  stage text that \<open>_set_activity_stage\<close> stores as the tool tip (the visible text is
  that text elided to the widget's width by the font metrics); \<open>runner_glyph\<close>,
  \<open>status_chip\<close> and the three \<open>_edit\<close> fields are the texts of those widgets;
  \<open>log_view\<close> is the lines of the log; \<open>plot_processes\<close> names each \<open>QProcess\<close> by a
  number; \<open>recent_file\<close> is what \<open>_save_recent\<close> last wrote.
\<close>

record main_window =
  busy_counter :: int
  busy_base_text :: string
  busy_tick :: int
  busy_has_error :: bool
  busy_timer_active :: bool
  runner_glyph :: string
  activity_stage :: string
  status_chip :: string
  log_view :: "string list"
  top_run_btn_enabled :: bool
  plot_processes :: "nat list"
  data_dir_edit :: string
  out_dir_edit :: string
  karospace_path_edit :: string
  recent_projects :: "recent_project list"
  recent_file :: "recent_project list option"

definition runner_frames :: "string list" where
  "runner_frames =
     [''o-/'', ''o_/'', [CHR ''o'', CHR ''-'', CHR 0x5C], [CHR ''o'', CHR ''_'', CHR 0x5C]]"

text \<open>
  The window as \<open>__init__\<close> and \<open>_build_ui\<close> leave it; the log lines written while the
  theme is applied and the registry \<open>_load_recent\<close> returned are parameters.
\<close>

definition init_window :: "string list \<Rightarrow> recent_project list \<Rightarrow> main_window" where
  "init_window logged loaded =
     \<lparr>busy_counter = 0, busy_base_text = ''Running'', busy_tick = 0,
      busy_has_error = False, busy_timer_active = False,
      runner_glyph = ''   '', activity_stage = ''Idle'', status_chip = ''Ready'',
      log_view = logged, top_run_btn_enabled = True, plot_processes = [],
      data_dir_edit = [], out_dir_edit = [], karospace_path_edit = [],
      recent_projects = loaded, recent_file = None\<rparr>"

text \<open>\<open>_log\<close>; \<open>hms\<close> is the wall-clock time as \<open>strftime("%H:%M:%S")\<close> renders it.\<close>

definition log_message :: "string \<Rightarrow> string \<Rightarrow> main_window \<Rightarrow> main_window" where
  "log_message hms message w =
     w\<lparr>log_view := log_view w @ [''['' @ hms @ ''] '' @ message]\<rparr>"

subsection \<open>Output discovery and overwrite confirmation\<close>

text \<open>
  A \<open>Path\<close> is its list of components, \<open>out_dir / "data" / "raw.h5ad"\<close> appends two;
  \<open>str(p)\<close> joins them with the separator. The file system is the set of the
  paths that exist, so \<open>p.exists()\<close> is \<open>p \<in> fs\<close>.
\<close>

type_synonym path = "string list"

definition str_path :: "path \<Rightarrow> string" where
  "str_path p = py_join ''/'' p"

definition collect_existing_pipeline_outputs ::
  "path set \<Rightarrow> path \<Rightarrow> path option \<Rightarrow> path list" where
  "collect_existing_pipeline_outputs fs od karospace_path =
     (let candidates =
            [od @ [''data'', ''raw.h5ad''],
             od @ [''data'', ''clustered.h5ad''],
             od @ [''data'', ''cluster_info.json''],
             od @ [''data'', ''markers_by_cluster.csv''],
             od @ [''xenium_qc'', ''summary_by_run.csv''],
             od @ [''xenium_qc'', ''gene_detection_overall.csv''],
             od @ [''plots'', ''spatial.png''],
             od @ [''plots'', ''umap.png''],
             od @ [''plots'', ''compartments.png'']];
          candidates =
            (case karospace_path of None \<Rightarrow> candidates | Some p \<Rightarrow> candidates @ [p])
      in filter (\<lambda>p. p \<in> fs) candidates)"

text \<open>
  The warning box \<open>_confirm_overwrite\<close> builds, and the button \<open>msg.exec()\<close> returns.
\<close>

datatype standard_button = Yes | No

record message_box =
  window_title :: string
  box_text :: string
  informative_text :: string
  detailed_text :: string
  default_button :: standard_button

text \<open>
  \<open>_confirm_overwrite(paths, title=..., prompt=...)\<close>: the value returned and the box
  shown, if one is; \<open>answer\<close> is what the user clicks.
\<close>

definition confirm_overwrite ::
  "path list \<Rightarrow> string \<Rightarrow> string \<Rightarrow> standard_button \<Rightarrow> bool \<times> message_box option" where
  "confirm_overwrite paths title prompt answer =
     (if paths = [] then (True, None)
      else (let shown = map str_path (take 10 paths);
                details = py_join [CHR 0x0A] shown;
                details =
                  (if length paths > 10
                   then details @ [CHR 0x0A] @ ''... and ''
                        @ str_int (int (length paths) - 10) @ '' more''
                   else details);
                msg = \<lparr>window_title = title, box_text = prompt,
                       informative_text = ''Existing files will be replaced.'',
                       detailed_text = details, default_button = No\<rparr>
            in (answer = Yes, Some msg)))"

subsection \<open>Busy tracker\<close>

definition set_activity_stage :: "string \<Rightarrow> main_window \<Rightarrow> main_window" where
  "set_activity_stage text w = w\<lparr>activity_stage := text\<rparr>"

definition enter_busy :: "string \<Rightarrow> main_window \<Rightarrow> main_window" where
  "enter_busy stage_text w =
     (let w1 = (if busy_counter w = 0
                then w\<lparr>busy_has_error := False, busy_tick := 0, busy_timer_active := True\<rparr>
                else w);
          w2 = w1\<lparr>busy_counter := busy_counter w1 + 1\<rparr>;
          w3 = w2\<lparr>busy_base_text := stage_text\<rparr>;
          w4 = set_activity_stage stage_text w3
      in w4\<lparr>status_chip := ''Running''\<rparr>)"

definition leave_busy :: "bool \<Rightarrow> main_window \<Rightarrow> main_window" where
  "leave_busy failed w =
     (let w1 = (if failed then w\<lparr>busy_has_error := True\<rparr> else w);
          w2 = (if busy_counter w1 > 0 then w1\<lparr>busy_counter := busy_counter w1 - 1\<rparr> else w1)
      in if busy_counter w2 = 0
         then (let w3 = w2\<lparr>busy_timer_active := False\<rparr>;
                   w4 = w3\<lparr>runner_glyph := ''   ''\<rparr>;
                   w5 = set_activity_stage ''Idle'' w4
               in w5\<lparr>status_chip := (if busy_has_error w5 then ''Error'' else ''Ready'')\<rparr>)
         else w2)"

text \<open>
  \<open>_animate_busy_state\<close>, the slot of the timer. Python's \<open>%\<close> with the positive
  modulus 4 is \<open>mod\<close> on \<open>int\<close>, so the index is in range.
\<close>

definition animate_busy_state :: "main_window \<Rightarrow> main_window" where
  "animate_busy_state w =
     (if busy_counter w \<le> 0
      then w\<lparr>runner_glyph := ''   '', status_chip := ''Ready''\<rparr>
      else (let frame = runner_frames ! nat (busy_tick w mod int (length runner_frames));
                w1 = w\<lparr>runner_glyph := frame\<rparr>;
                w2 = w1\<lparr>status_chip := ''Running''\<rparr>
            in w2\<lparr>busy_tick := busy_tick w2 + 1\<rparr>))"

text \<open>The calls that reach the busy tracker, and a sequence of them run in order.\<close>

datatype busy_call = Enter string | Leave bool | Tick

fun busy_step :: "busy_call \<Rightarrow> main_window \<Rightarrow> main_window" where
  "busy_step (Enter stage_text) w = enter_busy stage_text w"
| "busy_step (Leave failed) w = leave_busy failed w"
| "busy_step Tick w = animate_busy_state w"

fun busy_run :: "busy_call list \<Rightarrow> main_window \<Rightarrow> main_window" where
  "busy_run [] w = w"
| "busy_run (c # cs) w = busy_run cs (busy_step c w)"

subsection \<open>Stage classifier\<close>

definition stage_map :: "(string \<times> string) list" where
  "stage_map =
     [(''Loading run:'', ''Loading runs''),
      (''Saved raw AnnData:'', ''Preparing QC''),
      (''Saved QC outputs:'', ''QC complete''),
      (''Running MANA weighted aggregation...'', ''MANA aggregation''),
      (''Saved clustered AnnData:'', ''Saving clustered data''),
      (''Exporting KaroSpace HTML...'', ''Exporting KaroSpace'')]"

text \<open>The \<open>for token, stage_text in stage_map\<close> loop, which returns at the first hit.\<close>

fun scan_stage_map :: "(string \<times> string) list \<Rightarrow> string \<Rightarrow> main_window \<Rightarrow> main_window" where
  "scan_stage_map [] line w = w"
| "scan_stage_map ((token, stage_text) # rest) line w =
     (if py_contains token line
      then set_activity_stage stage_text (w\<lparr>busy_base_text := stage_text\<rparr>)
      else scan_stage_map rest line w)"

definition update_stage_from_log :: "string \<Rightarrow> main_window \<Rightarrow> main_window" where
  "update_stage_from_log line w =
     (if prefix ''STEP: '' line
      then (let stage_text = py_strip (py_replace1 ''STEP: '' [] line)
            in set_activity_stage stage_text (w\<lparr>busy_base_text := stage_text\<rparr>))
      else scan_stage_map stage_map line w)"

subsection \<open>Recent-project registry\<close>

text \<open>
  \<open>_update_recent\<close>; \<open>now\<close> is \<open>datetime.now().isoformat(timespec="seconds")\<close>. The
  closing \<open>_populate_recent\<close> rebuilds the list widget from \<open>recent_projects\<close> and
  changes no field of the record.
\<close>

definition update_recent :: "string \<Rightarrow> main_window \<Rightarrow> main_window" where
  "update_recent now w =
     (let dd = py_strip (data_dir_edit w);
          od = py_strip (out_dir_edit w)
      in if dd = [] \<or> od = [] then w
         else (let kh = (if py_strip (karospace_path_edit w) = [] then None
                         else Some (py_strip (karospace_path_edit w)));
                   filtered = filter (\<lambda>p. \<not> (data_dir p = dd \<and> out_dir p = od))
                                (recent_projects w);
                   filtered = filtered @ [\<lparr>data_dir = dd, out_dir = od,
                                            karospace_html = kh, last_used = now\<rparr>];
                   w1 = w\<lparr>recent_projects := filtered\<rparr>
               in w1\<lparr>recent_file := Some (recent_projects w1)\<rparr>))"

subsection \<open>Job runner: the slots connected to each process\<close>

text \<open>
  The signals of a \<open>QProcess\<close>. \<open>readyReadStandardOutput\<close> carries here the lines
  \<open>splitlines()\<close> makes of the decoded text; \<open>finished\<close> carries the exit code (its
  exit status is ignored by both slots); \<open>errorOccurred\<close> carries the error, and
  \<open>FailedToStart\<close> is the one Qt emits for a program that is missing or may not be
  executed.
\<close>

datatype process_error = FailedToStart | Crashed | Timedout | ReadError | WriteError | UnknownError

datatype process_signal =
  ReadyReadStandardOutput "string list"
| Finished int
| ErrorOccurred process_error

text \<open>
  The end of \<open>_run_pipeline\<close>, from \<open>self._log("Starting pipeline...")\<close> on: what the
  method does to the window once the arguments are built and the overwrite is confirmed.
\<close>

definition run_pipeline_start :: "string \<Rightarrow> main_window \<Rightarrow> main_window" where
  "run_pipeline_start hms w =
     (let w1 = log_message hms ''Starting pipeline...'' w;
          w2 = enter_busy ''Running pipeline'' w1
      in w2\<lparr>top_run_btn_enabled := False\<rparr>)"

fun on_process_output :: "string \<Rightarrow> string list \<Rightarrow> main_window \<Rightarrow> main_window" where
  "on_process_output hms [] w = w"
| "on_process_output hms (line # rest) w =
     (if py_strip line \<noteq> []
      then on_process_output hms rest (update_stage_from_log line (log_message hms line w))
      else on_process_output hms rest w)"

text \<open>
  \<open>_on_process_finished\<close>. \<open>_load_outputs\<close>, called before \<open>_update_recent\<close>, fills the
  preview widgets from the output directory and touches no field of the record.
\<close>

definition on_process_finished :: "string \<Rightarrow> string \<Rightarrow> int \<Rightarrow> main_window \<Rightarrow> main_window" where
  "on_process_finished hms now exit_code w =
     (let w1 = w\<lparr>top_run_btn_enabled := True\<rparr>;
          w2 = log_message hms (''Pipeline finished (exit code '' @ str_int exit_code @ '').'') w1;
          w3 = leave_busy (exit_code \<noteq> 0) w2;
          od = py_strip (out_dir_edit w3)
      in if od \<noteq> [] then update_recent now w3 else w3)"

text \<open>
  \<open>_run_pipeline\<close> connects two signals of the process, \<open>readyReadStandardOutput\<close>
  and \<open>finished\<close>; no slot is connected to any other.
\<close>

fun pipeline_signal :: "string \<Rightarrow> string \<Rightarrow> process_signal \<Rightarrow> main_window \<Rightarrow> main_window" where
  "pipeline_signal hms now (ReadyReadStandardOutput ls) w = on_process_output hms ls w"
| "pipeline_signal hms now (Finished exit_code) w = on_process_finished hms now exit_code w"
| "pipeline_signal hms now (ErrorOccurred e) w = w"

text \<open>
  \<open>_run_visual_process\<close>, for the process \<open>proc\<close> and the output file whose name is
  \<open>name\<close> and whose stem is \<open>stem\<close>, and its two local slots.
\<close>

definition run_visual_process :: "string \<Rightarrow> nat \<Rightarrow> string \<Rightarrow> string \<Rightarrow> main_window \<Rightarrow> main_window" where
  "run_visual_process hms proc name stem w =
     (let w1 = log_message hms (''Generating plot: '' @ name) w;
          w2 = enter_busy (''Generating '' @ stem) w1
      in w2\<lparr>plot_processes := plot_processes w2 @ [proc]\<rparr>)"

fun on_plot_output :: "string \<Rightarrow> string list \<Rightarrow> main_window \<Rightarrow> main_window" where
  "on_plot_output hms [] w = w"
| "on_plot_output hms (line # rest) w =
     (if py_strip line \<noteq> [] then on_plot_output hms rest (log_message hms line w)
      else on_plot_output hms rest w)"

definition on_finished :: "string \<Rightarrow> nat \<Rightarrow> string \<Rightarrow> int \<Rightarrow> main_window \<Rightarrow> main_window" where
  "on_finished hms proc name exit_code w =
     (let w1 = (if proc \<in> set (plot_processes w)
                then w\<lparr>plot_processes := remove1 proc (plot_processes w)\<rparr> else w)
      in if exit_code \<noteq> 0
         then leave_busy True (log_message hms (''Plot generation failed: '' @ name) w1)
         else leave_busy False (log_message hms (''Plot ready: '' @ name) w1))"

fun plot_signal :: "string \<Rightarrow> nat \<Rightarrow> string \<Rightarrow> process_signal \<Rightarrow> main_window \<Rightarrow> main_window" where
  "plot_signal hms proc name (ReadyReadStandardOutput ls) w = on_plot_output hms ls w"
| "plot_signal hms proc name (Finished exit_code) w = on_finished hms proc name exit_code w"
| "plot_signal hms proc name (ErrorOccurred e) w = w"

section \<open>Busy tracker: proofs\<close>

lemma busy_counter_enter: "busy_counter (enter_busy t w) = busy_counter w + 1"
  by (simp add: enter_busy_def set_activity_stage_def Let_def)

lemma busy_counter_leave:
  "busy_counter (leave_busy f w) = (if busy_counter w > 0 then busy_counter w - 1 else busy_counter w)"
  by (simp add: leave_busy_def set_activity_stage_def Let_def)

lemma busy_counter_animate: "busy_counter (animate_busy_state w) = busy_counter w"
  by (simp add: animate_busy_state_def Let_def)

lemma busy_step_nonneg: "0 \<le> busy_counter w \<Longrightarrow> 0 \<le> busy_counter (busy_step c w)"
  by (cases c) (auto simp: busy_counter_enter busy_counter_leave busy_counter_animate)

lemma busy_run_nonneg: "0 \<le> busy_counter w \<Longrightarrow> 0 \<le> busy_counter (busy_run cs w)"
  by (induction cs arbitrary: w) (auto intro: busy_step_nonneg)

lemma busy_run_append: "busy_run (xs @ ys) w = busy_run ys (busy_run xs w)"
  by (induction xs arbitrary: w) auto

text \<open>
  C5. The counter is a Python \<open>int\<close>, modelled as \<open>int\<close>, so a negative value is
  expressible. From the start state, and from any state with a non-negative counter,
  no sequence of enter, leave and timer calls makes the counter negative, also one with
  more leaves than enters; and one leave lowers the counter by exactly one when it is
  positive and leaves it alone otherwise.
\<close>

theorem busy_counter_never_negative:
  "0 \<le> busy_counter (busy_run cs (init_window logged loaded))
   \<and> (0 \<le> busy_counter w \<longrightarrow> 0 \<le> busy_counter (busy_run cs w))
   \<and> busy_counter (leave_busy failed w)
       = (if 0 < busy_counter w then busy_counter w - 1 else busy_counter w)"
proof -
  have "0 \<le> busy_counter (init_window logged loaded)"
    by (simp add: init_window_def)
  then have "0 \<le> busy_counter (busy_run cs (init_window logged loaded))"
    by (rule busy_run_nonneg)
  then show ?thesis
    by (simp add: busy_run_nonneg busy_counter_leave)
qed

theorem busy_counter_never_negative_witness:
  "busy_counter (busy_run [Leave False, Enter ''A'', Leave True, Leave False, Leave False]
                   (init_window [] [])) = 0
   \<and> busy_counter (leave_busy False (init_window [] [])) = 0"
proof -
  let ?w = "init_window [] []"
  let ?cs = "[Leave False, Enter ''A'', Leave True, Leave False, Leave False]"
  have nonneg: "0 \<le> busy_counter (busy_run ?cs ?w)"
    using busy_counter_never_negative [of ?cs "[]" "[]" ?w False]
    by blast
  have "busy_counter (busy_run ?cs ?w) \<le> 0"
    by (simp add: init_window_def busy_counter_enter busy_counter_leave)
  moreover have "busy_counter (leave_busy False ?w) = 0"
    by (simp add: init_window_def busy_counter_leave)
  ultimately show ?thesis
    using nonneg by simp
qed

lemma busy_sticky_step:
  "0 < busy_counter w \<Longrightarrow> busy_has_error w \<Longrightarrow>
   busy_has_error (busy_step c w)
   \<and> (busy_counter (busy_step c w) = 0 \<longrightarrow>
        status_chip (busy_step c w) = ''Error'' \<and> activity_stage (busy_step c w) = ''Idle'')"
  by (cases c)
     (auto simp: enter_busy_def leave_busy_def animate_busy_state_def set_activity_stage_def Let_def)

lemma busy_leave_failed:
  "busy_has_error (leave_busy True w)
   \<and> (busy_counter (leave_busy True w) = 0 \<longrightarrow>
        status_chip (leave_busy True w) = ''Error'' \<and> activity_stage (leave_busy True w) = ''Idle'')"
  by (simp add: leave_busy_def set_activity_stage_def Let_def)

lemma busy_sticky_run:
  assumes "busy_has_error w"
    and "busy_counter w = 0 \<longrightarrow> status_chip w = ''Error'' \<and> activity_stage w = ''Idle''"
    and "\<forall>k<length cs. 0 < busy_counter (busy_run (take k cs) w)"
  shows "busy_has_error (busy_run cs w)
   \<and> (busy_counter (busy_run cs w) = 0 \<longrightarrow>
        status_chip (busy_run cs w) = ''Error'' \<and> activity_stage (busy_run cs w) = ''Idle'')"
  using assms(3)
proof (induction cs rule: rev_induct)
  case Nil
  then show ?case using assms(1,2) by simp
next
  case (snoc c cs)
  have before: "\<forall>k<length cs. 0 < busy_counter (busy_run (take k cs) w)"
  proof (intro allI impI)
    fix k assume "k < length cs"
    then show "0 < busy_counter (busy_run (take k cs) w)"
      using snoc.prems [rule_format, of k] by simp
  qed
  have pos: "0 < busy_counter (busy_run cs w)"
    using snoc.prems [rule_format, of "length cs"] by simp
  have err: "busy_has_error (busy_run cs w)"
    using snoc.IH [OF before] by simp
  show ?case
    using busy_sticky_step [OF pos err, of c] by (simp add: busy_run_append)
qed

text \<open>
  C4. Let a leave with \<open>failed = True\<close> happen while the counter is above zero, and
  let any calls follow (enter, leave with either flag, timer ticks) such that the
  counter is above zero before each of them, that is, it has not yet returned to zero.
  Then the error flag is set after them, and if the last of them brought the counter to
  zero the status indicator reads Error and the activity label reads Idle.
\<close>

theorem busy_error_sticky:
  assumes "0 < busy_counter w0"
    and "\<forall>k<length cs. 0 < busy_counter (busy_run (take k cs) (leave_busy True w0))"
  shows "busy_has_error (busy_run cs (leave_busy True w0))
   \<and> (busy_counter (busy_run cs (leave_busy True w0)) = 0 \<longrightarrow>
        status_chip (busy_run cs (leave_busy True w0)) = ''Error''
        \<and> activity_stage (busy_run cs (leave_busy True w0)) = ''Idle'')"
  using busy_sticky_run [of "leave_busy True w0" cs] busy_leave_failed [of w0] assms(2)
  by blast

text \<open>
  The sequence enter, enter, leave(failed), leave(not failed) from the start state: the
  counter is back at zero, the timer is stopped, the label reads Idle and the status
  indicator reads Error.
\<close>

theorem busy_error_sticky_witness:
  "busy_counter (busy_run [Enter ''A'', Enter ''B'', Leave True, Leave False] (init_window [] [])) = 0
   \<and> busy_has_error (busy_run [Enter ''A'', Enter ''B'', Leave True, Leave False] (init_window [] []))
   \<and> \<not> busy_timer_active (busy_run [Enter ''A'', Enter ''B'', Leave True, Leave False] (init_window [] []))
   \<and> status_chip (busy_run [Enter ''A'', Enter ''B'', Leave True, Leave False] (init_window [] [])) = ''Error''
   \<and> activity_stage (busy_run [Enter ''A'', Enter ''B'', Leave True, Leave False] (init_window [] [])) = ''Idle''"
proof -
  let ?start = "busy_run [Enter ''A'', Enter ''B''] (init_window [] [])"
  let ?final = "busy_run [Leave False] (leave_busy True ?start)"
  have h1: "0 < busy_counter ?start"
    by (simp add: init_window_def busy_counter_enter)
  have h2: "\<forall>k<length [Leave False].
              0 < busy_counter (busy_run (take k [Leave False]) (leave_busy True ?start))"
    by (simp add: init_window_def busy_counter_enter busy_counter_leave)
  have zero: "busy_counter ?final = 0"
    by (simp add: init_window_def busy_counter_enter busy_counter_leave)
  have timer: "\<not> busy_timer_active ?final"
    by (simp add: leave_busy_def enter_busy_def set_activity_stage_def init_window_def Let_def)
  have same: "busy_run [Enter ''A'', Enter ''B'', Leave True, Leave False] (init_window [] []) = ?final"
    by simp
  have res: "busy_has_error ?final \<and> status_chip ?final = ''Error'' \<and> activity_stage ?final = ''Idle''"
    using busy_error_sticky [OF h1 h2] zero by blast
  show ?thesis
    unfolding same using res zero timer by blast
qed

section \<open>Python strings: proofs\<close>

text \<open>
  What \<open>py_strip\<close> removes: the string is the stripped string between two runs of
  whitespace, and the stripped string, unless empty, has no whitespace at either end.
\<close>

lemma py_strip_trims:
  "\<exists>l r. s = l @ py_strip s @ r
     \<and> (\<forall>c\<in>set l. py_isspace c) \<and> (\<forall>c\<in>set r. py_isspace c)
     \<and> (py_strip s \<noteq> [] \<longrightarrow> \<not> py_isspace (hd (py_strip s)) \<and> \<not> py_isspace (last (py_strip s)))"
proof -
  let ?t = "dropWhile py_isspace s"
  let ?l = "takeWhile py_isspace s"
  let ?r = "rev (takeWhile py_isspace (rev ?t))"
  have mid: "py_strip s = rev (dropWhile py_isspace (rev ?t))"
    by (simp add: py_strip_def)
  have "rev ?t = takeWhile py_isspace (rev ?t) @ dropWhile py_isspace (rev ?t)"
    by simp
  then have "rev (rev ?t) = rev (takeWhile py_isspace (rev ?t) @ dropWhile py_isspace (rev ?t))"
    by (rule arg_cong)
  then have t: "?t = py_strip s @ ?r"
    unfolding mid by (simp only: rev_rev_ident rev_append)
  have s: "s = ?l @ py_strip s @ ?r"
    using t takeWhile_dropWhile_id [of py_isspace s] by metis
  have l: "\<forall>c\<in>set ?l. py_isspace c"
    using set_takeWhileD by fastforce
  have r: "\<forall>c\<in>set ?r. py_isspace c"
    using set_takeWhileD by fastforce
  have ends: "\<not> py_isspace (hd (py_strip s)) \<and> \<not> py_isspace (last (py_strip s))"
    if ne: "py_strip s \<noteq> []"
  proof -
    have tne: "?t \<noteq> []" using t ne by (metis append_is_Nil_conv)
    have "hd (py_strip s) = hd ?t"
      using t ne by (metis hd_append2)
    then have h: "\<not> py_isspace (hd (py_strip s))"
      using hd_dropWhile [OF tne] by simp
    have dne: "dropWhile py_isspace (rev ?t) \<noteq> []"
      using ne unfolding mid by simp
    have "last (py_strip s) = hd (dropWhile py_isspace (rev ?t))"
      unfolding mid using dne by (simp add: last_rev)
    then have "\<not> py_isspace (last (py_strip s))"
      using hd_dropWhile [OF dne] by simp
    then show ?thesis using h by simp
  qed
  show ?thesis
    using s l r ends by blast
qed

section \<open>Stage classifier: proofs\<close>

text \<open>\<open>py_contains\<close> is the substring test: the token occurs somewhere in the line.\<close>

lemma py_contains_iff: "py_contains tok s \<longleftrightarrow> (\<exists>pre post. s = pre @ tok @ post)"
proof (induction s)
  case Nil
  then show ?case by auto
next
  case (Cons c cs)
  show ?case
  proof
    assume "py_contains tok (c # cs)"
    then consider "prefix tok (c # cs)" | "py_contains tok cs" by auto
    then show "\<exists>pre post. c # cs = pre @ tok @ post"
    proof cases
      case 1
      then obtain post where "c # cs = tok @ post" by (auto simp: prefix_def)
      then have "c # cs = [] @ tok @ post" by simp
      then show ?thesis by blast
    next
      case 2
      then obtain pre post where "cs = pre @ tok @ post" using Cons.IH by blast
      then have "c # cs = (c # pre) @ tok @ post" by simp
      then show ?thesis by blast
    qed
  next
    assume "\<exists>pre post. c # cs = pre @ tok @ post"
    then obtain pre post where eq: "c # cs = pre @ tok @ post" by blast
    show "py_contains tok (c # cs)"
    proof (cases pre)
      case Nil
      then have "prefix tok (c # cs)" using eq by (simp add: prefix_def)
      then show ?thesis by simp
    next
      case (Cons a pre')
      then have "cs = pre' @ tok @ post" using eq by simp
      then have "py_contains tok cs" using Cons.IH by blast
      then show ?thesis by simp
    qed
  qed
qed

lemma py_replace1_prefix: "prefix old s \<Longrightarrow> py_replace1 old new s = new @ drop (length old) s"
  by (cases s) auto

lemma scan_stage_map_first:
  assumes "i < length tbl" "py_contains (fst (tbl ! i)) line"
    and "\<forall>j<i. \<not> py_contains (fst (tbl ! j)) line"
  shows "scan_stage_map tbl line w
         = w\<lparr>busy_base_text := snd (tbl ! i), activity_stage := snd (tbl ! i)\<rparr>"
  using assms
proof (induction tbl line w arbitrary: i rule: scan_stage_map.induct)
  case (1 line w)
  then show ?case by simp
next
  case (2 token stage_text rest line w)
  show ?case
  proof (cases i)
    case 0
    then show ?thesis using "2.prems" by (simp add: set_activity_stage_def)
  next
    case (Suc i')
    have miss: "\<not> py_contains token line"
      using "2.prems"(3) [rule_format, of 0] Suc by simp
    have "\<forall>j<i'. \<not> py_contains (fst (rest ! j)) line"
    proof (intro allI impI)
      fix j assume "j < i'"
      then show "\<not> py_contains (fst (rest ! j)) line"
        using "2.prems"(3) [rule_format, of "Suc j"] Suc by simp
    qed
    then show ?thesis
      using "2.IH" [OF miss, of i'] "2.prems"(1,2) Suc miss by simp
  qed
qed

lemma scan_stage_map_none:
  "\<forall>e\<in>set tbl. \<not> py_contains (fst e) line \<Longrightarrow> scan_stage_map tbl line w = w"
  by (induction tbl line w rule: scan_stage_map.induct) auto

text \<open>
  C8. A line that begins with the marker \<open>STEP: \<close> sets the stage (the base text and
  the activity label) to the rest of the line after the six characters of the marker,
  trimmed: that rest is the label between a run of whitespace on each side (the code
  points 9-13, 28-32, 133 and 160), and the label, unless empty, neither begins nor ends
  with whitespace. Any other line sets the stage to the label of the first entry of the
  table, in table order, whose token occurs in the line (\<open>py_contains\<close>, which
  \<open>py_contains_iff\<close> shows to be the substring test); a line that matches no entry
  leaves the window as it is.
\<close>

theorem update_stage_from_log_rules:
  fixes line :: string and w :: main_window
  defines "ws \<equiv> \<lambda>c::char. (of_char c :: nat) \<in> {9, 10, 11, 12, 13, 28, 29, 30, 31, 32, 133, 160}"
  shows "(prefix ''STEP: '' line \<longrightarrow>
      update_stage_from_log line w
      = w\<lparr>busy_base_text := py_strip (drop 6 line), activity_stage := py_strip (drop 6 line)\<rparr>
      \<and> (\<exists>l r. drop 6 line = l @ py_strip (drop 6 line) @ r
             \<and> (\<forall>c\<in>set l. ws c) \<and> (\<forall>c\<in>set r. ws c)
             \<and> (py_strip (drop 6 line) \<noteq> [] \<longrightarrow>
                  \<not> ws (hd (py_strip (drop 6 line))) \<and> \<not> ws (last (py_strip (drop 6 line))))))
   \<and> (\<not> prefix ''STEP: '' line \<longrightarrow>
        (\<forall>i<length stage_map.
           py_contains (fst (stage_map ! i)) line
           \<and> (\<forall>j<i. \<not> py_contains (fst (stage_map ! j)) line)
           \<longrightarrow> update_stage_from_log line w
               = w\<lparr>busy_base_text := snd (stage_map ! i), activity_stage := snd (stage_map ! i)\<rparr>)
        \<and> ((\<forall>e\<in>set stage_map. \<not> py_contains (fst e) line)
             \<longrightarrow> update_stage_from_log line w = w))"
proof -
  have ws: "ws = py_isspace"
    unfolding ws_def by (rule ext) (simp add: py_isspace_def)
  have marker: "update_stage_from_log line w
      = w\<lparr>busy_base_text := py_strip (drop 6 line), activity_stage := py_strip (drop 6 line)\<rparr>"
    if p: "prefix ''STEP: '' line"
  proof -
    have "py_replace1 ''STEP: '' [] line = drop 6 line"
      using py_replace1_prefix [OF p, of "[]"] by (simp add: eval_nat_numeral)
    then show ?thesis
      using p by (simp add: update_stage_from_log_def set_activity_stage_def Let_def)
  qed
  have trim: "\<exists>l r. drop 6 line = l @ py_strip (drop 6 line) @ r
             \<and> (\<forall>c\<in>set l. ws c) \<and> (\<forall>c\<in>set r. ws c)
             \<and> (py_strip (drop 6 line) \<noteq> [] \<longrightarrow>
                  \<not> ws (hd (py_strip (drop 6 line))) \<and> \<not> ws (last (py_strip (drop 6 line))))"
    unfolding ws using py_strip_trims [of "drop 6 line"] .
  have hit: "update_stage_from_log line w
               = w\<lparr>busy_base_text := snd (stage_map ! i), activity_stage := snd (stage_map ! i)\<rparr>"
    if "\<not> prefix ''STEP: '' line" "i < length stage_map"
      "py_contains (fst (stage_map ! i)) line \<and> (\<forall>j<i. \<not> py_contains (fst (stage_map ! j)) line)"
    for i
    using that scan_stage_map_first [of i stage_map line w]
    by (simp add: update_stage_from_log_def)
  have miss: "update_stage_from_log line w = w"
    if "\<not> prefix ''STEP: '' line" "\<forall>e\<in>set stage_map. \<not> py_contains (fst e) line"
    using that by (simp add: update_stage_from_log_def scan_stage_map_none)
  show ?thesis
    using marker trim hit miss by blast
qed

text \<open>
  The lines of the specification's examples, and a marker line with whitespace around
  its label, from the start state.
\<close>

theorem update_stage_from_log_rules_witness:
  "update_stage_from_log ''STEP: Clustering'' (init_window [] [])
     = (init_window [] [])\<lparr>busy_base_text := ''Clustering'', activity_stage := ''Clustering''\<rparr>
   \<and> update_stage_from_log (''STEP:   Clustering cells '' @ [CHR 0x09, CHR 0x0A]) (init_window [] [])
     = (init_window [] [])\<lparr>busy_base_text := ''Clustering cells'',
                             activity_stage := ''Clustering cells''\<rparr>
   \<and> update_stage_from_log ''Saved raw AnnData: foo.h5ad'' (init_window [] [])
     = (init_window [] [])\<lparr>busy_base_text := ''Preparing QC'', activity_stage := ''Preparing QC''\<rparr>
   \<and> update_stage_from_log ''irrelevant line'' (init_window [] []) = init_window [] []"
proof -
  have a1: "prefix ''STEP: '' ''STEP: Clustering''"
    by simp
  have a2: "py_strip (drop 6 ''STEP: Clustering'') = ''Clustering''"
    by (simp add: py_strip_def py_isspace_def)
  have d1: "prefix ''STEP: '' (''STEP:   Clustering cells '' @ [CHR 0x09, CHR 0x0A])"
    by simp
  have d2: "py_strip (drop 6 (''STEP:   Clustering cells '' @ [CHR 0x09, CHR 0x0A]))
            = ''Clustering cells''"
    by (simp add: py_strip_def py_isspace_def)
  have b1: "\<not> prefix ''STEP: '' ''Saved raw AnnData: foo.h5ad''"
    by simp
  have b2: "(1::nat) < length stage_map"
    by (simp add: stage_map_def)
  have b3: "py_contains (fst (stage_map ! 1)) ''Saved raw AnnData: foo.h5ad''
            \<and> (\<forall>j<1. \<not> py_contains (fst (stage_map ! j)) ''Saved raw AnnData: foo.h5ad'')"
    by (simp add: stage_map_def)
  have b4: "snd (stage_map ! 1) = ''Preparing QC''"
    by (simp add: stage_map_def)
  have c1: "\<not> prefix ''STEP: '' ''irrelevant line''"
    by simp
  have c2: "\<forall>e\<in>set stage_map. \<not> py_contains (fst e) ''irrelevant line''"
    by (simp add: stage_map_def)
  have r1: "update_stage_from_log ''STEP: Clustering'' (init_window [] [])
     = (init_window [] [])\<lparr>busy_base_text := ''Clustering'', activity_stage := ''Clustering''\<rparr>"
    using update_stage_from_log_rules [of "''STEP: Clustering''" "init_window [] []"] a1
    unfolding a2 by blast
  have r4: "update_stage_from_log (''STEP:   Clustering cells '' @ [CHR 0x09, CHR 0x0A]) (init_window [] [])
     = (init_window [] [])\<lparr>busy_base_text := ''Clustering cells'',
                             activity_stage := ''Clustering cells''\<rparr>"
    using update_stage_from_log_rules
      [of "''STEP:   Clustering cells '' @ [CHR 0x09, CHR 0x0A]" "init_window [] []"] d1
    unfolding d2 by blast
  have r2: "update_stage_from_log ''Saved raw AnnData: foo.h5ad'' (init_window [] [])
     = (init_window [] [])\<lparr>busy_base_text := ''Preparing QC'', activity_stage := ''Preparing QC''\<rparr>"
    using update_stage_from_log_rules [of "''Saved raw AnnData: foo.h5ad''" "init_window [] []"]
      b1 b2 b3 unfolding b4 [symmetric] by blast
  have r3: "update_stage_from_log ''irrelevant line'' (init_window [] []) = init_window [] []"
    using update_stage_from_log_rules [of "''irrelevant line''" "init_window [] []"] c1 c2
    by blast
  show ?thesis
    using r1 r4 r2 r3 by blast
qed

section \<open>Output discovery and overwrite confirmation: proofs\<close>

text \<open>
  C2, as the claim states it, fails. On a file system where every artifact exists under
  \<open>out\<close>, among them a QC image and \<open>plots/gene_expression_dotplot.png\<close> (the file
  \<open>_generate_gene_expression_dotplot\<close> writes and \<open>_load_gene_expression_image\<close>
  reads), the function returns nine paths, and neither the QC image nor the dotplot is
  one of them.
\<close>

theorem collect_existing_pipeline_outputs_counterexample:
  "[''out'', ''plots'', ''gene_expression_dotplot.png'']
     \<in> {[''out'', ''data'', ''raw.h5ad''], [''out'', ''data'', ''clustered.h5ad''],
         [''out'', ''data'', ''cluster_info.json''], [''out'', ''data'', ''markers_by_cluster.csv''],
         [''out'', ''xenium_qc'', ''summary_by_run.csv''],
         [''out'', ''xenium_qc'', ''gene_detection_overall.csv''],
         [''out'', ''xenium_qc'', ''cells_per_run.png''],
         [''out'', ''plots'', ''spatial.png''], [''out'', ''plots'', ''umap.png''],
         [''out'', ''plots'', ''compartments.png''],
         [''out'', ''plots'', ''gene_expression_dotplot.png'']}
   \<and> collect_existing_pipeline_outputs
       {[''out'', ''data'', ''raw.h5ad''], [''out'', ''data'', ''clustered.h5ad''],
        [''out'', ''data'', ''cluster_info.json''], [''out'', ''data'', ''markers_by_cluster.csv''],
        [''out'', ''xenium_qc'', ''summary_by_run.csv''],
        [''out'', ''xenium_qc'', ''gene_detection_overall.csv''],
        [''out'', ''xenium_qc'', ''cells_per_run.png''],
        [''out'', ''plots'', ''spatial.png''], [''out'', ''plots'', ''umap.png''],
        [''out'', ''plots'', ''compartments.png''],
        [''out'', ''plots'', ''gene_expression_dotplot.png'']}
       [''out''] None
     = [[''out'', ''data'', ''raw.h5ad''], [''out'', ''data'', ''clustered.h5ad''],
        [''out'', ''data'', ''cluster_info.json''], [''out'', ''data'', ''markers_by_cluster.csv''],
        [''out'', ''xenium_qc'', ''summary_by_run.csv''],
        [''out'', ''xenium_qc'', ''gene_detection_overall.csv''],
        [''out'', ''plots'', ''spatial.png''], [''out'', ''plots'', ''umap.png''],
        [''out'', ''plots'', ''compartments.png'']]"
  by (simp add: collect_existing_pipeline_outputs_def)

text \<open>
  C2, amended. The function returns, in this order, those that exist of nine fixed paths
  under the output directory (the raw and the clustered data, the cluster-info metadata,
  the marker table, two QC summary tables, and the spatial, UMAP and compartments
  plots), followed by the extra path if one is given and exists: the empty list when
  none of them exists, all nine and the extra path when all of them exist.
\<close>

theorem collect_existing_pipeline_outputs_fixed:
  fixes od :: path
  defines "fixed \<equiv>
     [od @ [''data'', ''raw.h5ad''], od @ [''data'', ''clustered.h5ad''],
      od @ [''data'', ''cluster_info.json''], od @ [''data'', ''markers_by_cluster.csv''],
      od @ [''xenium_qc'', ''summary_by_run.csv''],
      od @ [''xenium_qc'', ''gene_detection_overall.csv''],
      od @ [''plots'', ''spatial.png''], od @ [''plots'', ''umap.png''],
      od @ [''plots'', ''compartments.png'']]"
  shows "collect_existing_pipeline_outputs fs od extra
           = filter (\<lambda>p. p \<in> fs) (fixed @ (case extra of None \<Rightarrow> [] | Some p \<Rightarrow> [p]))
   \<and> ((\<forall>p \<in> set fixed \<union> set_option extra. p \<notin> fs)
        \<longrightarrow> collect_existing_pipeline_outputs fs od extra = [])
   \<and> ((\<forall>p \<in> set fixed \<union> set_option extra. p \<in> fs)
        \<longrightarrow> collect_existing_pipeline_outputs fs od extra
            = fixed @ (case extra of None \<Rightarrow> [] | Some p \<Rightarrow> [p]))"
proof -
  have eq: "collect_existing_pipeline_outputs fs od extra
           = filter (\<lambda>p. p \<in> fs) (fixed @ (case extra of None \<Rightarrow> [] | Some p \<Rightarrow> [p]))"
    unfolding fixed_def collect_existing_pipeline_outputs_def Let_def
    by (cases extra) simp_all
  have s: "set (fixed @ (case extra of None \<Rightarrow> [] | Some p \<Rightarrow> [p])) = set fixed \<union> set_option extra"
    by (cases extra) simp_all
  have none: "(\<forall>p \<in> set fixed \<union> set_option extra. p \<notin> fs)
        \<longrightarrow> collect_existing_pipeline_outputs fs od extra = []"
    unfolding eq s [symmetric] by (simp only: filter_empty_conv) blast
  have all: "(\<forall>p \<in> set fixed \<union> set_option extra. p \<in> fs)
        \<longrightarrow> collect_existing_pipeline_outputs fs od extra
            = fixed @ (case extra of None \<Rightarrow> [] | Some p \<Rightarrow> [p])"
    unfolding eq s [symmetric] by (simp only: filter_id_conv) blast
  show ?thesis using eq none all by blast
qed

theorem collect_existing_pipeline_outputs_fixed_witness:
  "collect_existing_pipeline_outputs {} [''out''] (Some [''x'', ''karospace.html'']) = []
   \<and> collect_existing_pipeline_outputs UNIV [''out''] (Some [''x'', ''karospace.html''])
     = [[''out'', ''data'', ''raw.h5ad''], [''out'', ''data'', ''clustered.h5ad''],
        [''out'', ''data'', ''cluster_info.json''], [''out'', ''data'', ''markers_by_cluster.csv''],
        [''out'', ''xenium_qc'', ''summary_by_run.csv''],
        [''out'', ''xenium_qc'', ''gene_detection_overall.csv''],
        [''out'', ''plots'', ''spatial.png''], [''out'', ''plots'', ''umap.png''],
        [''out'', ''plots'', ''compartments.png''], [''x'', ''karospace.html'']]"
  using collect_existing_pipeline_outputs_fixed [of "{}" "[''out'']" "Some [''x'', ''karospace.html'']"]
    collect_existing_pipeline_outputs_fixed [of UNIV "[''out'']" "Some [''x'', ''karospace.html'']"]
  by simp

text \<open>
  C10. For the empty list \<open>_confirm_overwrite\<close> returns \<open>True\<close> and builds no message
  box, whatever the title, the prompt and the user's answer would have been; for a
  non-empty list a box is shown and the result is whether the user answered Yes.
\<close>

theorem confirm_overwrite_empty:
  "confirm_overwrite [] title prompt answer = (True, None)
   \<and> fst (confirm_overwrite (p # ps) title prompt answer) = (answer = Yes)
   \<and> snd (confirm_overwrite (p # ps) title prompt answer) \<noteq> None"
  by (simp add: confirm_overwrite_def Let_def)

theorem confirm_overwrite_empty_witness:
  "confirm_overwrite [] ''Existing outputs found''
     ''Run pipeline and overwrite existing outputs?'' No = (True, None)"
  using confirm_overwrite_empty
    [of "''Existing outputs found''" "''Run pipeline and overwrite existing outputs?''" No]
  by blast

section \<open>Recent-project registry: proofs\<close>

text \<open>
  C9, as the claim states it, fails twice. With an empty data directory field the guard
  of \<open>_update_recent\<close> returns before anything is appended; and two entries of the
  prior registry that share a pair other than the upserted one (\<open>_load_recent\<close> takes
  the list from the file as it is) are both still there afterwards.
\<close>

theorem update_recent_counterexample:
  "recent_projects (update_recent ''t1'' ((init_window [] [])\<lparr>out_dir_edit := ''o1''\<rparr>)) = []
   \<and> recent_projects
       (update_recent ''t1''
          ((init_window []
              [\<lparr>data_dir = ''d0'', out_dir = ''o0'', karospace_html = None, last_used = ''t0''\<rparr>,
               \<lparr>data_dir = ''d0'', out_dir = ''o0'', karospace_html = None, last_used = ''t0''\<rparr>])
           \<lparr>data_dir_edit := ''d1'', out_dir_edit := ''o1''\<rparr>))
     = [\<lparr>data_dir = ''d0'', out_dir = ''o0'', karospace_html = None, last_used = ''t0''\<rparr>,
        \<lparr>data_dir = ''d0'', out_dir = ''o0'', karospace_html = None, last_used = ''t0''\<rparr>,
        \<lparr>data_dir = ''d1'', out_dir = ''o1'', karospace_html = None, last_used = ''t1''\<rparr>]"
  by (simp add: update_recent_def init_window_def py_strip_def py_isspace_def Let_def)

text \<open>
  C9, amended. Let \<open>dd\<close> and \<open>od\<close> be the stripped texts of the two directory fields.
  If both are non-empty, the new registry is the old one without the entries whose pair
  is \<open>(dd, od)\<close>, in their order, followed by one new entry with that pair, the
  stripped export path (none if blank) and the time stamp; so exactly one entry carries
  the pair, no pair occurs twice if none did before, and the list written to the file is
  the new registry. If either is empty, nothing changes.
\<close>

theorem update_recent_upsert:
  fixes w :: main_window and now :: string
  defines "dd \<equiv> py_strip (data_dir_edit w)"
    and "od \<equiv> py_strip (out_dir_edit w)"
    and "kh \<equiv> (if py_strip (karospace_path_edit w) = [] then None
                 else Some (py_strip (karospace_path_edit w)))"
    and "w' \<equiv> update_recent now w"
  shows "(dd \<noteq> [] \<and> od \<noteq> [] \<longrightarrow>
           recent_projects w'
             = filter (\<lambda>p. \<not> (data_dir p = dd \<and> out_dir p = od)) (recent_projects w)
               @ [\<lparr>data_dir = dd, out_dir = od, karospace_html = kh, last_used = now\<rparr>]
           \<and> filter (\<lambda>p. data_dir p = dd \<and> out_dir p = od) (recent_projects w')
               = [\<lparr>data_dir = dd, out_dir = od, karospace_html = kh, last_used = now\<rparr>]
           \<and> (distinct (map (\<lambda>p. (data_dir p, out_dir p)) (recent_projects w))
                \<longrightarrow> distinct (map (\<lambda>p. (data_dir p, out_dir p)) (recent_projects w')))
           \<and> recent_file w' = Some (recent_projects w'))
   \<and> (dd = [] \<or> od = [] \<longrightarrow> w' = w)"
proof -
  have skip: "dd = [] \<or> od = [] \<longrightarrow> w' = w"
    unfolding w'_def dd_def od_def update_recent_def Let_def by auto
  have main: "recent_projects w'
             = filter (\<lambda>p. \<not> (data_dir p = dd \<and> out_dir p = od)) (recent_projects w)
               @ [\<lparr>data_dir = dd, out_dir = od, karospace_html = kh, last_used = now\<rparr>]
             \<and> recent_file w' = Some (recent_projects w')"
    if "dd \<noteq> []" "od \<noteq> []"
    using that unfolding w'_def dd_def od_def kh_def update_recent_def Let_def by simp
  have one: "filter (\<lambda>p. data_dir p = dd \<and> out_dir p = od)
               (filter (\<lambda>p. \<not> (data_dir p = dd \<and> out_dir p = od)) xs @ [\<lparr>data_dir = dd, out_dir = od, karospace_html = kh, last_used = now\<rparr>])
             = [\<lparr>data_dir = dd, out_dir = od, karospace_html = kh, last_used = now\<rparr>]" for xs
    by (induction xs) auto
  have dist: "distinct (map (\<lambda>p. (data_dir p, out_dir p)) xs) \<Longrightarrow>
      distinct (map (\<lambda>p. (data_dir p, out_dir p))
        (filter (\<lambda>p. \<not> (data_dir p = dd \<and> out_dir p = od)) xs @ [\<lparr>data_dir = dd, out_dir = od, karospace_html = kh, last_used = now\<rparr>]))" for xs
    by (induction xs) auto
  show ?thesis
    using skip main one dist by auto
qed

text \<open>Upserting \<open>(d1, o1)\<close> at \<open>t1\<close> and again at \<open>t2\<close> leaves one entry, bearing \<open>t2\<close>.\<close>

theorem update_recent_upsert_witness:
  "recent_projects
     (update_recent ''t2''
        (update_recent ''t1'' ((init_window [] [])\<lparr>data_dir_edit := ''d1'', out_dir_edit := ''o1''\<rparr>)))
   = [\<lparr>data_dir = ''d1'', out_dir = ''o1'', karospace_html = None, last_used = ''t2''\<rparr>]"
proof -
  let ?a = "(init_window [] [])\<lparr>data_dir_edit := ''d1'', out_dir_edit := ''o1''\<rparr>"
  let ?b = "update_recent ''t1'' ?a"
  have strips: "py_strip ''d1'' = ''d1''" "py_strip ''o1'' = ''o1''" "py_strip [] = []"
    by (simp_all add: py_strip_def py_isspace_def)
  have ea: "data_dir_edit ?a = ''d1''" "out_dir_edit ?a = ''o1''" "karospace_path_edit ?a = []"
    "recent_projects ?a = []"
    by (simp_all add: init_window_def)
  have first: "recent_projects ?b
     = [\<lparr>data_dir = ''d1'', out_dir = ''o1'', karospace_html = None, last_used = ''t1''\<rparr>]"
    using update_recent_upsert [of ?a "''t1''"] by (simp add: ea strips)
  have eb: "data_dir_edit ?b = ''d1''" "out_dir_edit ?b = ''o1''" "karospace_path_edit ?b = []"
    by (simp_all add: update_recent_def Let_def init_window_def strips)
  show ?thesis
    using update_recent_upsert [of ?b "''t2''"] by (simp add: eb first strips)
qed

section \<open>Key inference: proofs\<close>

lemma first_in_columns_Some:
  "first_in_columns columns cands = Some k \<Longrightarrow> k \<in> set columns \<and> k \<in> set cands"
  by (induction cands) (auto split: if_splits)

lemma first_in_columns_None:
  "first_in_columns columns cands = None \<longleftrightarrow> (\<forall>c\<in>set cands. c \<notin> set columns)"
  by (induction cands) auto

lemma first_in_columns_index:
  assumes "\<exists>c\<in>set cands. c \<in> set columns"
  shows "\<exists>i<length cands. first_in_columns columns cands = Some (cands ! i)
           \<and> cands ! i \<in> set columns \<and> (\<forall>j<i. cands ! j \<notin> set columns)"
  using assms
proof (induction cands)
  case Nil
  then show ?case by simp
next
  case (Cons c cands)
  show ?case
  proof (cases "c \<in> set columns")
    case True
    then have "first_in_columns columns (c # cands) = Some ((c # cands) ! 0)
           \<and> (c # cands) ! 0 \<in> set columns \<and> (\<forall>j<0. (c # cands) ! j \<notin> set columns)"
      by simp
    then show ?thesis by blast
  next
    case False
    then have "\<exists>c\<in>set cands. c \<in> set columns" using Cons.prems by auto
    then obtain i where i: "i < length cands" "first_in_columns columns cands = Some (cands ! i)"
      "cands ! i \<in> set columns" "\<forall>j<i. cands ! j \<notin> set columns"
      using Cons.IH by blast
    have "\<forall>j<Suc i. (c # cands) ! j \<notin> set columns"
    proof (intro allI impI)
      fix j assume "j < Suc i"
      then show "(c # cands) ! j \<notin> set columns"
        using False i(4) by (cases j) auto
    qed
    then have "Suc i < length (c # cands) \<and> first_in_columns columns (c # cands) = Some ((c # cands) ! Suc i)
           \<and> (c # cands) ! Suc i \<in> set columns \<and> (\<forall>j<Suc i. (c # cands) ! j \<notin> set columns)"
      using False i by simp
    then show ?thesis by blast
  qed
qed

lemma last_sort_max:
  fixes xs :: "string list"
  assumes "xs \<noteq> []"
  shows "last (sort xs) \<in> set xs \<and> (\<forall>x\<in>set xs. x \<le> last (sort xs))"
proof -
  have ne: "sort xs \<noteq> []" using assms by (metis length_sort length_0_conv)
  have mem: "last (sort xs) \<in> set xs"
    using last_in_set [OF ne] by simp
  have "\<forall>x\<in>set (sort xs). x \<le> last (sort xs)"
  proof
    fix x assume "x \<in> set (sort xs)"
    then obtain i where i: "i < length (sort xs)" "sort xs ! i = x"
      unfolding in_set_conv_nth by blast
    have "sort xs ! i \<le> sort xs ! (length (sort xs) - 1)"
      using sorted_nth_mono [OF sorted_sort, of i "length (sort xs) - 1" xs] i(1) by simp
    then show "x \<le> last (sort xs)"
      using i(2) ne by (simp add: last_conv_nth)
  qed
  then show ?thesis using mem by simp
qed

lemma column_fallbacks_member:
  "columns \<noteq> [] \<Longrightarrow> column_fallbacks columns fallback \<in> set columns"
proof -
  assume ne: "columns \<noteq> []"
  show ?thesis
  proof (cases "filter (prefix ''leiden_'') columns = []")
    case True
    then show ?thesis using ne by (simp add: column_fallbacks_def Let_def)
  next
    case False
    then have "last (sort (filter (prefix ''leiden_'') columns)) \<in> set (filter (prefix ''leiden_'') columns)"
      using last_sort_max by blast
    then show ?thesis using False by (simp add: column_fallbacks_def Let_def)
  qed
qed

lemma column_fallbacks_empty: "column_fallbacks [] fallback = fallback"
  by (simp add: column_fallbacks_def)

lemma infer_default_color_cases:
  "infer_default_color columns info fallback preferred_key = Inl AttributeError \<and> info = Loaded PNonObject
   \<or> (\<exists>k. infer_default_color columns info fallback preferred_key = Inr k
            \<and> k \<in> set columns \<and> metadata_cluster_key columns info preferred_key = Inr (Some k))
   \<or> infer_default_color columns info fallback preferred_key = Inr (column_fallbacks columns fallback)
      \<and> info \<noteq> Loaded PNonObject"
proof (cases "metadata_cluster_key columns info preferred_key")
  case (Inl e)
  then have "info = Loaded PNonObject"
    by (cases "(columns, info, preferred_key)" rule: metadata_cluster_key.cases) auto
  then show ?thesis by (simp add: infer_default_color_def)
next
  case (Inr ck)
  then have ok: "info \<noteq> Loaded PNonObject" by auto
  show ?thesis
  proof (cases ck)
    case None
    then show ?thesis using Inr ok by (simp add: infer_default_color_def)
  next
    case (Some k)
    then show ?thesis using Inr ok by (simp add: infer_default_color_def)
  qed
qed

text \<open>
  C1. Unless the sidecar parses to something that is not an object (then
  \<open>AttributeError\<close> leaves the function), a key is returned; and a returned key is a
  member of the column list when that list is non-empty, and is the static fallback
  when the list is empty.
\<close>

theorem infer_default_color_member:
  "(info \<noteq> Loaded PNonObject \<longrightarrow>
      (\<exists>k. infer_default_color columns info fallback preferred_key = Inr k))
   \<and> (\<forall>k. infer_default_color columns info fallback preferred_key = Inr k \<longrightarrow>
          (columns \<noteq> [] \<longrightarrow> k \<in> set columns) \<and> (columns = [] \<longrightarrow> k = fallback))"
  using infer_default_color_cases [of columns info fallback preferred_key]
    column_fallbacks_member [of columns fallback] column_fallbacks_empty [of fallback]
  by auto

theorem infer_default_color_member_witness:
  "infer_default_color [''sample_id'', ''run''] NoFile ''leiden'' None = Inr ''sample_id''
   \<and> ''sample_id'' \<in> set [''sample_id'', ''run'']
   \<and> infer_default_color [] NoFile ''leiden'' None = Inr ''leiden''"
proof -
  have e1: "infer_default_color [''sample_id'', ''run''] NoFile ''leiden'' None = Inr ''sample_id''"
    by (simp add: infer_default_color_def column_fallbacks_def)
  have m: "''sample_id'' \<in> set [''sample_id'', ''run'']"
    using infer_default_color_member [of NoFile "[''sample_id'', ''run'']" "''leiden''" None] e1
    by blast
  obtain k where k: "infer_default_color [] NoFile ''leiden'' None = Inr k"
    using infer_default_color_member [of NoFile "[]" "''leiden''" None] by blast
  then have "k = ''leiden''"
    using infer_default_color_member [of NoFile "[]" "''leiden''" None] by blast
  then show ?thesis using e1 m k by blast
qed

lemma metadata_cluster_key_None:
  "metadata_cluster_key columns info preferred_key = Inr None \<longleftrightarrow>
     info = NoFile \<or> info = Malformed
     \<or> (\<exists>p. info = Loaded (PObject p)
            \<and> (\<forall>c\<in>set (collect_candidates p preferred_key). c \<notin> set columns))"
  by (cases "(columns, info, preferred_key)" rule: metadata_cluster_key.cases)
     (auto simp: first_in_columns_None)

text \<open>
  C7. When the metadata yields no key (no sidecar, an unreadable one, or one none of
  whose candidates is a column) and some column starts with \<open>leiden_\<close>, the result is
  such a column and the greatest of them in the order of strings, whatever the static
  fallback and the first column are.
\<close>

theorem infer_default_color_leiden:
  assumes "info = NoFile \<or> info = Malformed
     \<or> (\<exists>p. info = Loaded (PObject p)
            \<and> (\<forall>c\<in>set (collect_candidates p preferred_key). c \<notin> set columns))"
    and "\<exists>c\<in>set columns. prefix ''leiden_'' c"
  shows "\<exists>r. infer_default_color columns info fallback preferred_key = Inr r
           \<and> r \<in> set columns \<and> prefix ''leiden_'' r
           \<and> (\<forall>c\<in>set columns. prefix ''leiden_'' c \<longrightarrow> c \<le> r)"
proof -
  let ?ls = "filter (prefix ''leiden_'') columns"
  have none: "metadata_cluster_key columns info preferred_key = Inr None"
    using assms(1) by (simp only: metadata_cluster_key_None)
  have ne: "?ls \<noteq> []"
    using assms(2) by (simp add: filter_empty_conv)
  have res: "infer_default_color columns info fallback preferred_key = Inr (last (sort ?ls))"
    using none ne by (simp add: infer_default_color_def column_fallbacks_def Let_def)
  have mx: "last (sort ?ls) \<in> set ?ls \<and> (\<forall>x\<in>set ?ls. x \<le> last (sort ?ls))"
    using last_sort_max [OF ne] .
  show ?thesis
    using res mx by auto
qed

text \<open>
  The specification's example: the columns \<open>leiden_0.5\<close>, \<open>leiden_1.0\<close> and
  \<open>sample_id\<close>, the metadata \<open>{}\<close>, no preferred field, the fallback \<open>leiden\<close>.
\<close>

theorem infer_default_color_leiden_witness:
  "infer_default_color [''leiden_0.5'', ''leiden_1.0'', ''sample_id'']
     (Loaded (PObject Map.empty)) ''leiden'' None = Inr ''leiden_1.0''"
proof -
  let ?cols = "[''leiden_0.5'', ''leiden_1.0'', ''sample_id'']"
  have h1: "Loaded (PObject Map.empty) = NoFile \<or> Loaded (PObject Map.empty) = Malformed
     \<or> (\<exists>p. Loaded (PObject Map.empty) = Loaded (PObject p)
            \<and> (\<forall>c\<in>set (collect_candidates p None). c \<notin> set ?cols))"
    by (simp add: collect_candidates_def)
  have h2: "\<exists>c\<in>set ?cols. prefix ''leiden_'' c"
    by simp
  obtain r where r: "infer_default_color ?cols (Loaded (PObject Map.empty)) ''leiden'' None = Inr r"
    "r \<in> set ?cols" "prefix ''leiden_'' r"
    "\<forall>c\<in>set ?cols. prefix ''leiden_'' c \<longrightarrow> c \<le> r"
    using infer_default_color_leiden [OF h1 h2, of "''leiden''"] by blast
  have "''leiden_1.0'' \<le> r"
    using r(4) by simp
  moreover have "\<not> ''leiden_1.0'' \<le> ''leiden_0.5''"
    by simp
  moreover have "r = ''leiden_0.5'' \<or> r = ''leiden_1.0''"
    using r(2,3) by auto
  ultimately have "r = ''leiden_1.0''"
    by blast
  then show ?thesis using r(1) by simp
qed

text \<open>
  C6, as the claim states it, fails: the singular field is read whenever the preferred
  field's name ends in \<open>s\<close>, also when the plural field has yielded candidates. With
  \<open>compartment_keys = ["a"]\<close> and \<open>compartment_key = "region"\<close> the plural field
  yields the candidate \<open>a\<close>, the collected candidates are \<open>a\<close> and \<open>region\<close>, and
  the result is \<open>region\<close>, taken from the singular field; without the singular field
  the same call returns the first column.
\<close>

theorem infer_default_color_preferred_counterexample:
  "to_candidates
     ([''compartment_keys'' \<mapsto> JList [''a''], ''compartment_key'' \<mapsto> JString ''region'']
        ''compartment_keys'') = [''a'']
   \<and> collect_candidates
       [''compartment_keys'' \<mapsto> JList [''a''], ''compartment_key'' \<mapsto> JString ''region'']
       (Some ''compartment_keys'') = [''a'', ''region'']
   \<and> infer_default_color [''other'', ''region'']
       (Loaded (PObject
          [''compartment_keys'' \<mapsto> JList [''a''], ''compartment_key'' \<mapsto> JString ''region'']))
       ''leiden'' (Some ''compartment_keys'') = Inr ''region''
   \<and> infer_default_color [''other'', ''region'']
       (Loaded (PObject [''compartment_keys'' \<mapsto> JList [''a'']]))
       ''leiden'' (Some ''compartment_keys'') = Inr ''other''"
  by (simp add: infer_default_color_def collect_candidates_def column_fallbacks_def
      py_strip_def py_isspace_def suffix_to_prefix Let_def)

lemma to_candidates_nonblank: "\<forall>c\<in>set (to_candidates v). c \<noteq> []"
  by (cases v rule: to_candidates.cases) auto

text \<open>
  C6, amended. The candidates of a field are the entries of a list, each stripped, the
  blank ones left out, in the list's order, or a non-blank string alone, stripped, and
  nothing for any other value. For a non-empty preferred field the collected candidates
  are those of that field followed, when the field's name ends in \<open>s\<close>, by those of
  the field named without that \<open>s\<close>, whether or not the first yielded any; only if
  both yield nothing are they those of \<open>cluster_key\<close>. If one of the collected
  candidates is a column, the result is the first of them that is. Stripping is
  \<open>py_strip\<close>, pinned here by what it removes.
\<close>

theorem infer_default_color_preferred:
  fixes p :: "string \<rightharpoonup> json_field" and pk :: string
  defines "ws \<equiv> \<lambda>c::char. (of_char c :: nat) \<in> {9, 10, 11, 12, 13, 28, 29, 30, 31, 32, 133, 160}"
    and "cand \<equiv> \<lambda>v. case v of
            Some (JList items) \<Rightarrow> filter (\<lambda>s. s \<noteq> []) (map py_strip items)
          | Some (JString s) \<Rightarrow> (if py_strip s = [] then [] else [py_strip s])
          | _ \<Rightarrow> []"
  defines "pref \<equiv> cand (p pk) @ (if suffix ''s'' pk then cand (p (butlast pk)) else [])"
  defines "cs \<equiv> if pref = [] then cand (p ''cluster_key'') else pref"
  assumes "pk \<noteq> []"
  shows "collect_candidates p (Some pk) = cs
   \<and> (\<forall>s. \<exists>l r. s = l @ py_strip s @ r \<and> (\<forall>c\<in>set l. ws c) \<and> (\<forall>c\<in>set r. ws c)
          \<and> (py_strip s \<noteq> [] \<longrightarrow> \<not> ws (hd (py_strip s)) \<and> \<not> ws (last (py_strip s))))
   \<and> ((\<exists>c\<in>set cs. c \<in> set columns) \<longrightarrow>
        (\<exists>i<length cs.
           infer_default_color columns (Loaded (PObject p)) fallback (Some pk) = Inr (cs ! i)
           \<and> cs ! i \<in> set columns \<and> (\<forall>j<i. cs ! j \<notin> set columns)))"
proof -
  have cand_eq: "cand v = to_candidates v" for v
    unfolding cand_def by (cases v rule: to_candidates.cases) (simp_all add: filter_map comp_def)
  have cc: "collect_candidates p (Some pk) = cs"
    using assms(5) unfolding cs_def pref_def cand_eq collect_candidates_def Let_def
    by (cases "suffix ''s'' pk") auto
  have ws: "ws = py_isspace"
    unfolding ws_def by (rule ext) (simp add: py_isspace_def)
  have strip: "\<forall>s. \<exists>l r. s = l @ py_strip s @ r \<and> (\<forall>c\<in>set l. ws c) \<and> (\<forall>c\<in>set r. ws c)
          \<and> (py_strip s \<noteq> [] \<longrightarrow> \<not> ws (hd (py_strip s)) \<and> \<not> ws (last (py_strip s)))"
    unfolding ws using py_strip_trims by blast
  have nonblank: "\<forall>c\<in>set cs. c \<noteq> []"
    unfolding cs_def pref_def cand_eq using to_candidates_nonblank by auto
  have first: "\<exists>i<length cs.
           infer_default_color columns (Loaded (PObject p)) fallback (Some pk) = Inr (cs ! i)
           \<and> cs ! i \<in> set columns \<and> (\<forall>j<i. cs ! j \<notin> set columns)"
    if hit: "\<exists>c\<in>set cs. c \<in> set columns"
  proof -
    obtain i where i: "i < length cs" "first_in_columns columns cs = Some (cs ! i)"
      "cs ! i \<in> set columns" "\<forall>j<i. cs ! j \<notin> set columns"
      using first_in_columns_index [OF hit] by blast
    have "cs ! i \<noteq> []"
      using nonblank i(1) by simp
    then have "infer_default_color columns (Loaded (PObject p)) fallback (Some pk) = Inr (cs ! i)"
      using cc i(2,3) by (simp add: infer_default_color_def)
    then show ?thesis using i by blast
  qed
  show ?thesis
    using cc strip first by blast
qed

text \<open>
  The specification's example (the metadata \<open>{"compartment_key": "region"}\<close>, the
  columns \<open>other\<close> and \<open>region\<close>, the preferred field \<open>compartment_keys\<close>), where
  the result is not the first column, which is what the same call returns without the
  sidecar; and a list whose entries need stripping, one of them blank, where the result
  follows the order of the list and not that of the columns.
\<close>

theorem infer_default_color_preferred_witness:
  "infer_default_color [''other'', ''region'']
     (Loaded (PObject [''compartment_key'' \<mapsto> JString ''region'']))
     ''leiden'' (Some ''compartment_keys'') = Inr ''region''
   \<and> infer_default_color [''other'', ''region''] NoFile ''leiden'' (Some ''compartment_keys'')
     = Inr ''other''
   \<and> infer_default_color [''a'', ''b'']
     (Loaded (PObject [''cluster_keys'' \<mapsto> JList ['' b '', ''  '', ''a'']]))
     ''leiden'' (Some ''cluster_keys'') = Inr ''b''"
proof -
  let ?p = "[''compartment_key'' \<mapsto> JString ''region'']"
  let ?q = "[''cluster_keys'' \<mapsto> JList ['' b '', ''  '', ''a'']]"
  have h: "''compartment_keys'' \<noteq> []" "''cluster_keys'' \<noteq> []"
    by simp_all
  note first = infer_default_color_preferred
    [where p = ?p and pk = "''compartment_keys''" and columns = "[''other'', ''region'']"
       and fallback = "''leiden''", OF h(1)]
  note second = infer_default_color_preferred
    [where p = ?q and pk = "''cluster_keys''" and columns = "[''a'', ''b'']"
       and fallback = "''leiden''", OF h(2)]
  have cp: "collect_candidates ?p (Some ''compartment_keys'') = [''region'']"
    unfolding first [THEN conjunct1]
    by (simp add: py_strip_def py_isspace_def suffix_to_prefix)
  have cq: "collect_candidates ?q (Some ''cluster_keys'') = [''b'', ''a'']"
    unfolding second [THEN conjunct1]
    by (simp add: py_strip_def py_isspace_def suffix_to_prefix)
  note first_hit = first [THEN conjunct2, THEN conjunct2,
      unfolded first [THEN conjunct1, symmetric] cp]
  note second_hit = second [THEN conjunct2, THEN conjunct2,
      unfolded second [THEN conjunct1, symmetric] cq]
  have "\<exists>c\<in>set [''region'']. c \<in> set [''other'', ''region'']"
    by simp
  then obtain i where i: "i < length [''region'']"
    "infer_default_color [''other'', ''region''] (Loaded (PObject ?p)) ''leiden''
            (Some ''compartment_keys'') = Inr ([''region''] ! i)"
    using first_hit by blast
  have "i = 0"
    using i(1) by simp
  then have r1: "infer_default_color [''other'', ''region''] (Loaded (PObject ?p)) ''leiden''
            (Some ''compartment_keys'') = Inr ''region''"
    using i(2) by simp
  have r2: "infer_default_color [''other'', ''region''] NoFile ''leiden'' (Some ''compartment_keys'')
     = Inr ''other''"
    by (simp add: infer_default_color_def column_fallbacks_def)
  have "\<exists>c\<in>set [''b'', ''a'']. c \<in> set [''a'', ''b'']"
    by simp
  then obtain k where k: "k < length [''b'', ''a'']"
    "infer_default_color [''a'', ''b''] (Loaded (PObject ?q)) ''leiden''
            (Some ''cluster_keys'') = Inr ([''b'', ''a''] ! k)"
    "\<forall>j<k. [''b'', ''a''] ! j \<notin> set [''a'', ''b'']"
    using second_hit by blast
  have "k = 0"
  proof (rule ccontr)
    assume "k \<noteq> 0"
    then have "[''b'', ''a''] ! 0 \<notin> set [''a'', ''b'']"
      using k(3) by blast
    then show False by simp
  qed
  then have r3: "infer_default_color [''a'', ''b''] (Loaded (PObject ?q)) ''leiden''
            (Some ''cluster_keys'') = Inr ''b''"
    using k(2) by simp
  show ?thesis
    using r1 r2 r3 by blast
qed

section \<open>Job runner: proofs\<close>

lemma update_recent_busy:
  "busy_counter (update_recent now w) = busy_counter w"
  "busy_has_error (update_recent now w) = busy_has_error w"
  by (simp_all add: update_recent_def Let_def)

lemma log_message_busy:
  "busy_counter (log_message hms m w) = busy_counter w"
  "busy_has_error (log_message hms m w) = busy_has_error w"
  by (simp_all add: log_message_def)

lemma busy_has_error_leave:
  "busy_has_error (leave_busy failed w) = (busy_has_error w \<or> failed)"
  by (simp add: leave_busy_def set_activity_stage_def Let_def)

lemma on_process_finished_busy:
  "busy_counter (on_process_finished hms now exit_code w)
     = busy_counter (leave_busy (exit_code \<noteq> 0) w)
   \<and> busy_has_error (on_process_finished hms now exit_code w)
     = busy_has_error (leave_busy (exit_code \<noteq> 0) w)"
  by (simp add: on_process_finished_def Let_def update_recent_busy log_message_busy
      busy_counter_leave busy_has_error_leave)

lemma on_finished_busy:
  "busy_counter (on_finished hms proc name exit_code w)
     = busy_counter (leave_busy (exit_code \<noteq> 0) w)
   \<and> busy_has_error (on_finished hms proc name exit_code w)
     = busy_has_error (leave_busy (exit_code \<noteq> 0) w)"
  by (simp add: on_finished_def Let_def log_message_busy busy_counter_leave busy_has_error_leave)

text \<open>
  C3, as the claim states it, fails. Qt reports a process that could not be started by
  \<open>errorOccurred(FailedToStart)\<close>, and \<open>finished\<close> is emitted only for a process that
  ran. Neither \<open>_run_pipeline\<close> nor \<open>_run_visual_process\<close> connects a slot to
  \<open>errorOccurred\<close>, so after a job is started and that signal arrives the busy counter
  is still 1, the timer runs, the status indicator reads Running, the Run button stays
  disabled and the plot process stays in the list.
\<close>

theorem job_spawn_failure_counterexample:
  "busy_counter (pipeline_signal ''12:00:01'' ''2026-01-01T12:00:01'' (ErrorOccurred FailedToStart)
                   (run_pipeline_start ''12:00:00'' (init_window [] []))) = 1
   \<and> status_chip (pipeline_signal ''12:00:01'' ''2026-01-01T12:00:01'' (ErrorOccurred FailedToStart)
                   (run_pipeline_start ''12:00:00'' (init_window [] []))) = ''Running''
   \<and> busy_timer_active (pipeline_signal ''12:00:01'' ''2026-01-01T12:00:01'' (ErrorOccurred FailedToStart)
                   (run_pipeline_start ''12:00:00'' (init_window [] [])))
   \<and> \<not> top_run_btn_enabled (pipeline_signal ''12:00:01'' ''2026-01-01T12:00:01'' (ErrorOccurred FailedToStart)
                   (run_pipeline_start ''12:00:00'' (init_window [] [])))
   \<and> busy_counter (plot_signal ''12:00:01'' 0 ''umap.png'' (ErrorOccurred FailedToStart)
                   (run_visual_process ''12:00:00'' 0 ''umap.png'' ''umap'' (init_window [] []))) = 1
   \<and> plot_processes (plot_signal ''12:00:01'' 0 ''umap.png'' (ErrorOccurred FailedToStart)
                   (run_visual_process ''12:00:00'' 0 ''umap.png'' ''umap'' (init_window [] []))) = [0]"
  by (simp add: run_pipeline_start_def run_visual_process_def enter_busy_def log_message_def
      set_activity_stage_def init_window_def Let_def)

text \<open>
  C3, amended. Each \<open>finished\<close> signal of a job, of the pipeline or of a plot, makes
  its slot leave the busy state exactly once, with the failure flag set exactly when the
  exit code is not zero: the counter goes down by one if it is positive and the error
  flag is set if the exit code is not zero. An \<open>errorOccurred\<close> signal changes nothing.
\<close>

theorem job_finished_leaves_busy_once:
  "busy_counter (pipeline_signal hms now (Finished exit_code) w)
     = (if 0 < busy_counter w then busy_counter w - 1 else busy_counter w)
   \<and> busy_has_error (pipeline_signal hms now (Finished exit_code) w)
     = (busy_has_error w \<or> exit_code \<noteq> 0)
   \<and> busy_counter (plot_signal hms proc name (Finished exit_code) w)
     = (if 0 < busy_counter w then busy_counter w - 1 else busy_counter w)
   \<and> busy_has_error (plot_signal hms proc name (Finished exit_code) w)
     = (busy_has_error w \<or> exit_code \<noteq> 0)
   \<and> pipeline_signal hms now (ErrorOccurred e) w = w
   \<and> plot_signal hms proc name (ErrorOccurred e) w = w"
  by (simp add: on_process_finished_busy on_finished_busy busy_counter_leave busy_has_error_leave)

theorem job_finished_leaves_busy_once_witness:
  "busy_counter (pipeline_signal ''12:00:09'' ''2026-01-01T12:00:09'' (Finished 1)
                   (run_pipeline_start ''12:00:00'' (init_window [] []))) = 0
   \<and> busy_has_error (pipeline_signal ''12:00:09'' ''2026-01-01T12:00:09'' (Finished 1)
                   (run_pipeline_start ''12:00:00'' (init_window [] [])))
   \<and> busy_counter (plot_signal ''12:00:09'' 0 ''umap.png'' (Finished 0)
                   (run_visual_process ''12:00:00'' 0 ''umap.png'' ''umap'' (init_window [] []))) = 0"
proof -
  have c1: "busy_counter (run_pipeline_start ''12:00:00'' (init_window [] [])) = 1"
    by (simp add: run_pipeline_start_def init_window_def Let_def busy_counter_enter log_message_busy)
  have c2: "busy_counter (run_visual_process ''12:00:00'' 0 ''umap.png'' ''umap'' (init_window [] [])) = 1"
    by (simp add: run_visual_process_def init_window_def Let_def busy_counter_enter log_message_busy)
  show ?thesis
    using job_finished_leaves_busy_once
        [of "''12:00:09''" "''2026-01-01T12:00:09''" 1
            "run_pipeline_start ''12:00:00'' (init_window [] [])"]
      job_finished_leaves_busy_once
        [of "''12:00:09''" "''2026-01-01T12:00:09''" 0
            "run_visual_process ''12:00:00'' 0 ''umap.png'' ''umap'' (init_window [] [])"
            0 "''umap.png''"]
    by (simp add: c1 c2)
qed

end
